theory Spec2Isabelle
  imports Complex_Main "HOL-Library.AList"
begin

section \<open>CSV to API converter: the handlers of \<open>app.py\<close>\<close>

text \<open>
  The program keeps one pandas DataFrame in \<open>app.state.df\<close> and serves three handlers:
  \<open>upload_csv\<close>, \<open>get_records\<close> and \<open>search\<close>, with the helpers \<open>_clean_df\<close> and
  \<open>_cast_type\<close>. The handlers are embedded as HOL functions over an explicit store; every
  \<open>raise\<close> is a value of a sum type. The library calls the handlers make (Python's
  \<open>int\<close>, \<open>float\<close>, \<open>str\<close>, slicing, \<open>==\<close>, \<open>dict\<close>; pandas' \<open>select_dtypes\<close>,
  \<open>astype(str)\<close>, boolean masks, \<open>iloc\<close>, \<open>replace\<close>, \<open>to_dict\<close>) are written out.
  Three library functions are taken as parameters, collected in the record \<open>pylib\<close>: the
  regular expression compiler behind \<open>Series.str.contains\<close>, \<open>repr\<close> of a finite float,
  and \<open>pandas.read_csv\<close>.

  Strings are \<open>char list\<close>: a character is one byte, and the case mapping and the white
  space of the model are those of ASCII.
\<close>

subsection \<open>Values, dtypes and frames\<close>

text \<open>
  A 64-bit float is its exact rational value when finite (the sign of zero is not kept),
  or one of the three special values.
\<close>

datatype fl = Fin rat | PInf | NInf | NaN

text \<open>The Python objects a frame built by \<open>read_csv\<close> holds, and \<open>None\<close>.\<close>

datatype cell = CInt int | CFloat fl | CBool bool | CStr string | CNone

datatype dtype = DInt | DFloat | DBool | DObject | DString

text \<open>
  A frame: the column names, in order, each with its dtype, and the rows, each row holding
  one cell per column in the order of the columns. A missing value is \<open>CFloat NaN\<close>, in a
  float column and in a text column alike.
\<close>

record dataframe =
  cols :: "(string \<times> dtype) list"
  rows :: "cell list list"

text \<open>\<open>row[key]\<close>: the cell of a row in the column of that name.\<close>

definition cell_at :: "dataframe \<Rightarrow> cell list \<Rightarrow> string \<Rightarrow> cell" where
  "cell_at df row key = (case map_of (zip (map fst (cols df)) row) key of Some v \<Rightarrow> v | None \<Rightarrow> CNone)"

text \<open>\<open>app.state.df\<close>: \<open>None\<close> until the first successful upload.\<close>

type_synonym store = "dataframe option"

subsection \<open>Exceptions and responses\<close>

datatype py_exn = ValueError | AttributeError | Re_error | Unmodelled

text \<open>
  A request fails with an \<open>HTTPException\<close> (status code and detail), or with an exception
  no handler catches, which the framework answers with status 500.
\<close>

datatype http_error = HTTPException int string | Internal py_exn

datatype json = JInt int | JStr string | JRows "(string \<times> cell) list list"

text \<open>The content of a JSON response: the keys of the dict literal in order, with their values.\<close>

type_synonym content = "(string \<times> json) list"

type_synonym response = "http_error + content"

definition total_of :: "content \<Rightarrow> int option" where
  "total_of c = (case map_of c ''total'' of Some (JInt n) \<Rightarrow> Some n | _ \<Rightarrow> None)"

definition data_of :: "content \<Rightarrow> (string \<times> cell) list list" where
  "data_of c = (case map_of c ''data'' of Some (JRows rs) \<Rightarrow> rs | _ \<Rightarrow> [])"

subsection \<open>Python's \<open>int\<close>, \<open>float\<close> and \<open>str\<close> on text\<close>

text \<open>
  The white space \<open>int\<close> and \<open>float\<close> skip around an ASCII text: tab, line feed, vertical
  tab, form feed, carriage return and space.
\<close>

definition is_space :: "char \<Rightarrow> bool" where
  "is_space c = (let n = (of_char c :: nat) in (9 \<le> n \<and> n \<le> 13) \<or> n = 32)"

definition is_digit :: "char \<Rightarrow> bool" where
  "is_digit c = (let n = (of_char c :: nat) in 48 \<le> n \<and> n \<le> 57)"

definition digit_val :: "char \<Rightarrow> int" where
  "digit_val c = of_char c - 48"

definition digit_char :: "nat \<Rightarrow> char" where
  "digit_char d = char_of (48 + d)"

definition lower_char :: "char \<Rightarrow> char" where
  "lower_char c = (let n = (of_char c :: nat) in if 65 \<le> n \<and> n \<le> 90 then char_of (n + 32) else c)"

definition lower :: "string \<Rightarrow> string" where
  "lower s = map lower_char s"

definition py_strip :: "string \<Rightarrow> string" where
  "py_strip s = rev (dropWhile is_space (rev (dropWhile is_space s)))"

text \<open>An optional sign at the head of a numeral: whether it is negative, and the rest.\<close>

fun split_sign :: "string \<Rightarrow> bool \<times> string" where
  "split_sign [] = (False, [])"
| "split_sign (c # cs) =
     (if c = CHR ''-'' then (True, cs) else if c = CHR ''+'' then (False, cs) else (False, c # cs))"

text \<open>\<open>digitpart ::= digit (["_"] digit)*\<close>, the grammar of \<open>int\<close> and \<open>float\<close>.\<close>

fun digitpart :: "string \<Rightarrow> bool" where
  "digitpart [] = False"
| "digitpart [c] = is_digit c"
| "digitpart (c # d # cs) =
     (is_digit c \<and> (if d = CHR ''_'' then digitpart cs else digitpart (d # cs)))"

text \<open>The value of a digit part: its digits in base ten, the underscores left out.\<close>

definition int_of_digits :: "string \<Rightarrow> int" where
  "int_of_digits s = foldl (\<lambda>a c. 10 * a + digit_val c) 0 (filter is_digit s)"

text \<open>
  \<open>int(value)\<close> for a \<open>str\<close>: white space around, an optional sign, a digit part.
  Anything else raises \<open>ValueError\<close>. (CPython's configurable limit on the number of
  digits is not modelled.)
\<close>

definition py_int :: "string \<Rightarrow> py_exn + int" where
  "py_int s =
     (case split_sign (py_strip s) of (neg, body) \<Rightarrow>
        if digitpart body
        then Inr (if neg then - int_of_digits body else int_of_digits body)
        else Inl ValueError)"

fun str_of_nat :: "nat \<Rightarrow> string" where
  "str_of_nat n = (if n < 10 then [digit_char n] else str_of_nat (n div 10) @ [digit_char (n mod 10)])"

declare str_of_nat.simps [simp del]

text \<open>\<open>str(n)\<close> for an \<open>int\<close>.\<close>

definition str_of_int :: "int \<Rightarrow> string" where
  "str_of_int n = (if n < 0 then CHR ''-'' # str_of_nat (nat (- n)) else str_of_nat (nat n))"

text \<open>
  Rounding a rational to the nearest 64-bit float, ties to the even significand. With
  \<open>e\<close> the binary exponent of \<open>\<bar>r\<bar>\<close>, the significand \<open>m\<close> counts units of \<open>2 ^ (e - 52)\<close>,
  or of \<open>2 ^ - 1074\<close> for a subnormal; the result \<open>m * 2 ^ q\<close> overflows to an infinity when
  it reaches \<open>2 ^ 1024\<close>, that is when \<open>e\<close> is at least 1024, or is 1023 and \<open>m\<close> rounds up
  to \<open>2 ^ 53\<close>.
\<close>

definition pow2 :: "int \<Rightarrow> rat" where
  "pow2 e = (if 0 \<le> e then 2 ^ nat e else 1 / 2 ^ nat (- e))"

definition pow10 :: "int \<Rightarrow> rat" where
  "pow10 e = (if 0 \<le> e then 10 ^ nat e else 1 / 10 ^ nat (- e))"

text \<open>\<open>n.bit_length()\<close> for a positive \<open>n\<close>.\<close>

function bit_length :: "int \<Rightarrow> int" where
  "bit_length n = (if n \<le> 0 then 0 else 1 + bit_length (n div 2))"
  by pat_completeness auto
termination
  by (relation "measure nat") auto

declare bit_length.simps [simp del]

definition ilog2 :: "rat \<Rightarrow> int" where
  "ilog2 r =
     (case quotient_of r of (a, b) \<Rightarrow>
        if pow2 (bit_length a - bit_length b) \<le> r
        then bit_length a - bit_length b
        else bit_length a - bit_length b - 1)"

definition round_half_even :: "rat \<Rightarrow> int" where
  "round_half_even x =
     (let f = \<lfloor>x\<rfloor>; d = x - of_int f
      in if d < 1 / 2 then f else if 1 / 2 < d then f + 1 else if even f then f else f + 1)"

definition finish_double :: "bool \<Rightarrow> int \<Rightarrow> int \<Rightarrow> int \<Rightarrow> fl" where
  "finish_double neg e q m =
     (if 1024 \<le> e \<or> (e = 1023 \<and> m = 2 ^ 53) then (if neg then NInf else PInf)
      else Fin (if neg then - (of_int m * pow2 q) else of_int m * pow2 q))"

definition round_double :: "bool \<Rightarrow> rat \<Rightarrow> int \<Rightarrow> int \<Rightarrow> fl" where
  "round_double neg a e q = finish_double neg e q (round_half_even (a / pow2 q))"

definition to_double :: "rat \<Rightarrow> fl" where
  "to_double r =
     (if r = 0 then Fin 0
      else round_double (r < 0) \<bar>r\<bar> (ilog2 \<bar>r\<bar>) (max (ilog2 \<bar>r\<bar> - 52) (- 1074)))"

text \<open>Splitting a text at the first character that satisfies \<open>p\<close>.\<close>

definition split_at :: "(char \<Rightarrow> bool) \<Rightarrow> string \<Rightarrow> string \<times> string option" where
  "split_at p s =
     (case dropWhile (\<lambda>c. \<not> p c) s of
        [] \<Rightarrow> (s, None)
      | _ # r \<Rightarrow> (takeWhile (\<lambda>c. \<not> p c) s, Some r))"

text \<open>The exponent of a float literal: absent, or an optional sign and a digit part.\<close>

definition float_exponent :: "string option \<Rightarrow> int option" where
  "float_exponent ex =
     (case ex of
        None \<Rightarrow> Some 0
      | Some e \<Rightarrow>
          (case split_sign e of (neg, body) \<Rightarrow>
             if digitpart body
             then Some (if neg then - int_of_digits body else int_of_digits body)
             else None))"

text \<open>
  \<open>float(value)\<close> for a \<open>str\<close>: white space around, an optional sign, then \<open>inf\<close>,
  \<open>infinity\<close> or \<open>nan\<close> in any case, or a decimal literal with an optional fraction and
  exponent, rounded to the nearest float. Anything else raises \<open>ValueError\<close>.
\<close>

definition py_float :: "string \<Rightarrow> py_exn + fl" where
  "py_float s =
     (case split_sign (py_strip s) of (neg, body) \<Rightarrow>
        if lower body = ''inf'' \<or> lower body = ''infinity'' then Inr (if neg then NInf else PInf)
        else if lower body = ''nan'' then Inr NaN
        else
          (case split_at (\<lambda>c. c = CHR ''e'' \<or> c = CHR ''E'') body of (mant, ex) \<Rightarrow>
           case split_at (\<lambda>c. c = CHR ''.'') mant of (ip, fp) \<Rightarrow>
             let fd = (case fp of None \<Rightarrow> [] | Some f \<Rightarrow> f)
             in if (ip = [] \<or> digitpart ip) \<and> (fd = [] \<or> digitpart fd) \<and> (ip \<noteq> [] \<or> fd \<noteq> [])
                then (case float_exponent ex of
                        None \<Rightarrow> Inl ValueError
                      | Some e \<Rightarrow>
                          Inr (to_double
                                 ((if neg then - 1 else 1) * of_int (int_of_digits (ip @ fd)) *
                                  pow10 (e - int (length (filter is_digit fd))))))
                else Inl ValueError))"

subsection \<open>The library functions taken as parameters\<close>

text \<open>
  \<open>re_compile lib pat\<close> is \<open>re.compile(pat, flags=re.IGNORECASE)\<close>, which pandas calls once
  for each \<open>Series.str.contains(pat, case=False)\<close> (its \<open>regex\<close> argument is true unless
  given): either \<open>re.error\<close> is raised, or the result decides for each text whether
  \<open>search\<close> finds a match in it. \<open>float_repr lib r\<close> is \<open>str(x)\<close> for the finite float of
  value \<open>r\<close>. \<open>read_csv lib bytes\<close> is \<open>pd.read_csv(BytesIO(bytes))\<close>: the frame, or the
  text of the exception raised.
\<close>

record pylib =
  re_compile :: "string \<Rightarrow> py_exn + (string \<Rightarrow> bool)"
  float_repr :: "rat \<Rightarrow> string"
  read_csv :: "string \<Rightarrow> string + dataframe"

text \<open>\<open>str(v)\<close>, which is also what \<open>astype(str)\<close> makes of each element of a column.\<close>

fun py_str :: "pylib \<Rightarrow> cell \<Rightarrow> string" where
  "py_str lib (CStr s) = s"
| "py_str lib (CInt n) = str_of_int n"
| "py_str lib (CBool b) = (if b then ''True'' else ''False'')"
| "py_str lib (CFloat (Fin r)) = float_repr lib r"
| "py_str lib (CFloat PInf) = ''inf''"
| "py_str lib (CFloat NInf) = ''-inf''"
| "py_str lib (CFloat NaN) = ''nan''"
| "py_str lib CNone = ''None''"

subsection \<open>Comparison, slicing and dicts\<close>

text \<open>The numeric value of a cell, if it has one (\<open>bool\<close> is a subclass of \<open>int\<close>).\<close>

fun num_of :: "cell \<Rightarrow> fl option" where
  "num_of (CInt n) = Some (Fin (of_int n))"
| "num_of (CFloat x) = Some x"
| "num_of (CBool b) = Some (Fin (if b then 1 else 0))"
| "num_of (CStr s) = None"
| "num_of CNone = None"

text \<open>\<open>x == y\<close> on floats: a NaN equals nothing, itself included.\<close>

definition fl_eq :: "fl \<Rightarrow> fl \<Rightarrow> bool" where
  "fl_eq x y = (x \<noteq> NaN \<and> y \<noteq> NaN \<and> x = y)"

text \<open>
  \<open>x == y\<close>, which is how \<open>Series == scalar\<close> compares each element: numbers by value,
  texts with texts, and a number never equals a text.
\<close>

definition py_eq :: "cell \<Rightarrow> cell \<Rightarrow> bool" where
  "py_eq a b =
     (case num_of a of
        Some x \<Rightarrow> (case num_of b of Some y \<Rightarrow> fl_eq x y | None \<Rightarrow> False)
      | None \<Rightarrow> (case num_of b of Some y \<Rightarrow> False | None \<Rightarrow> a = b))"

text \<open>A bound of a slice over \<open>n\<close> elements: a negative bound counts from the end, and both ends clamp.\<close>

definition slice_bound :: "int \<Rightarrow> nat \<Rightarrow> nat" where
  "slice_bound i n = (if i < 0 then nat (max 0 (i + int n)) else min (nat i) n)"

text \<open>\<open>xs.iloc[start:stop]\<close>.\<close>

definition iloc :: "'a list \<Rightarrow> int \<Rightarrow> int \<Rightarrow> 'a list" where
  "iloc xs start stop =
     (let a = slice_bound start (length xs); b = slice_bound stop (length xs)
      in take (b - a) (drop a xs))"

text \<open>
  \<open>dict(request.query_params)\<close>: the query string's pairs in order; a key that comes again
  keeps its place and takes the later value.
\<close>

definition dict_of :: "(string \<times> string) list \<Rightarrow> (string \<times> string) list" where
  "dict_of ps = foldl (\<lambda>d kv. AList.update (fst kv) (snd kv) d) [] ps"

text \<open>\<open>d.pop(key, None)\<close>, keeping the dict.\<close>

definition pop :: "string \<Rightarrow> (string \<times> string) list \<Rightarrow> (string \<times> string) list" where
  "pop key d = AList.delete key d"

text \<open>\<open>s.endswith(suffix)\<close>.\<close>

definition endswith :: "string \<Rightarrow> string \<Rightarrow> bool" where
  "endswith s suffix = (length suffix \<le> length s \<and> drop (length s - length suffix) s = suffix)"

subsection \<open>\<open>_cast_type\<close> and \<open>_clean_df\<close>\<close>

definition is_integer_dtype :: "dtype \<Rightarrow> bool" where
  "is_integer_dtype d = (d = DInt)"

definition is_float_dtype :: "dtype \<Rightarrow> bool" where
  "is_float_dtype d = (d = DFloat)"

text \<open>The body of the \<open>try\<close> of \<open>_cast_type\<close>: \<open>None\<close> when neither \<open>return\<close> is reached.\<close>

definition cast_try :: "dtype \<Rightarrow> string \<Rightarrow> py_exn + cell option" where
  "cast_try dt v =
     (if is_integer_dtype dt then
        (case py_int v of Inl e \<Rightarrow> Inl e | Inr n \<Rightarrow> Inr (Some (CInt n)))
      else if is_float_dtype dt then
        (case py_float v of Inl e \<Rightarrow> Inl e | Inr x \<Rightarrow> Inr (Some (CFloat x)))
      else Inr None)"

text \<open>
  \<open>_cast_type(dtype, value)\<close>: \<open>except ValueError: pass\<close> takes that exception alone; any
  other leaves the function.
\<close>

definition cast_type :: "dtype \<Rightarrow> string \<Rightarrow> py_exn + cell" where
  "cast_type dt v =
     (case cast_try dt v of
        Inl e \<Rightarrow> (if e = ValueError then Inr (CStr v) else Inl e)
      | Inr (Some c) \<Rightarrow> Inr c
      | Inr None \<Rightarrow> Inr (CStr v))"

text \<open>\<open>df.replace({np.nan: None, np.inf: None, -np.inf: None})\<close>, on one cell and on the rows.\<close>

fun clean_cell :: "cell \<Rightarrow> cell" where
  "clean_cell (CFloat NaN) = CNone"
| "clean_cell (CFloat PInf) = CNone"
| "clean_cell (CFloat NInf) = CNone"
| "clean_cell c = c"

definition clean_df :: "cell list list \<Rightarrow> cell list list" where
  "clean_df rs = map (map clean_cell) rs"

text \<open>\<open>to_dict(orient='records')\<close>: each row as a dict from the column names to its cells.\<close>

definition to_dict :: "dataframe \<Rightarrow> cell list list \<Rightarrow> (string \<times> cell) list list" where
  "to_dict df rs = map (\<lambda>r. zip (map fst (cols df)) r) rs"

subsection \<open>\<open>upload_csv\<close>\<close>

record upload_file =
  filename :: "string option"
  contents :: "string + string"

text \<open>
  The uploaded file: its name, if the part of the form has one, and what \<open>file.read()\<close>
  gives, the bytes or the text of the exception it raises. The handler returns the store
  it leaves with its response.
\<close>

definition upload_csv :: "pylib \<Rightarrow> store \<Rightarrow> upload_file \<Rightarrow> store \<times> response" where
  "upload_csv lib st file =
     (case filename file of
        None \<Rightarrow> (st, Inl (Internal AttributeError))
      | Some name \<Rightarrow>
          if \<not> endswith name ''.csv''
          then (st, Inl (HTTPException 400 ''Only CSV files are supported.''))
          else
            (case contents file of
               Inl e \<Rightarrow> (st, Inl (HTTPException 500 (''Failed to read CSV: '' @ e)))
             | Inr bytes \<Rightarrow>
                 (case read_csv lib bytes of
                    Inl e \<Rightarrow> (st, Inl (HTTPException 500 (''Failed to read CSV: '' @ e)))
                  | Inr df \<Rightarrow>
                      (Some df,
                       Inr [(''message'', JStr (''CSV file '' @ [CHR 0x27] @ name @ [CHR 0x27] @ '' uploaded successfully.'')),
                            (''rows'', JInt (int (length (rows df))))]))))"

subsection \<open>\<open>get_records\<close>\<close>

text \<open>
  The loop over \<open>params.items()\<close>: a key that is a column keeps the rows whose cell in that
  column equals the cast value; any other key changes nothing.
\<close>

fun filter_loop :: "dataframe \<Rightarrow> (string \<times> string) list \<Rightarrow> cell list list \<Rightarrow> py_exn + cell list list" where
  "filter_loop df [] results = Inr results"
| "filter_loop df ((key, v) # items) results =
     (case map_of (cols df) key of
        None \<Rightarrow> filter_loop df items results
      | Some dt \<Rightarrow>
          (case cast_type dt v of
             Inl e \<Rightarrow> Inl e
           | Inr c \<Rightarrow> filter_loop df items (filter (\<lambda>r. py_eq (cell_at df r key) c) results)))"

text \<open>The rows \<open>get_records\<close> selects, before pagination.\<close>

definition filter_rows :: "dataframe \<Rightarrow> (string \<times> string) list \<Rightarrow> py_exn + cell list list" where
  "filter_rows df params = filter_loop df (pop ''limit'' (pop ''skip'' (dict_of params))) (rows df)"

text \<open>The response both handlers build from the selected rows.\<close>

definition page_content :: "dataframe \<Rightarrow> cell list list \<Rightarrow> int \<Rightarrow> int \<Rightarrow> content" where
  "page_content df results skip limit =
     (let paged = iloc results skip (skip + limit);
          paged_clean = clean_df paged
      in [(''total'', JInt (int (length results))),
          (''skip'', JInt skip),
          (''limit'', JInt limit),
          (''data'', JRows (to_dict df paged_clean))])"

definition get_records :: "store \<Rightarrow> (string \<times> string) list \<Rightarrow> int \<Rightarrow> int \<Rightarrow> response" where
  "get_records st params skip limit =
     (case st of
        None \<Rightarrow> Inl (HTTPException 404 ''No CSV data uploaded yet.'')
      | Some df \<Rightarrow>
          (case filter_rows df params of
             Inl e \<Rightarrow> Inl (Internal e)
           | Inr results \<Rightarrow> Inr (page_content df results skip limit)))"

subsection \<open>\<open>search\<close>\<close>

text \<open>\<open>df.select_dtypes(include=['object', 'string']).columns\<close>.\<close>

definition select_dtypes :: "dataframe \<Rightarrow> string list" where
  "select_dtypes df = map fst (filter (\<lambda>cd. snd cd = DObject \<or> snd cd = DString) (cols df))"

text \<open>
  The loop \<open>mask |= df[col].astype(str).str.contains(q, case=False, na=False)\<close>: each
  column compiles the pattern, and the mask gains the rows whose text in that column the
  pattern is found in. \<open>astype(str)\<close> makes the text \<open>nan\<close> of a missing value, so no
  element is missing when \<open>contains\<close> runs and \<open>na\<close> decides nothing.
\<close>

fun mask_loop :: "pylib \<Rightarrow> dataframe \<Rightarrow> string \<Rightarrow> string list \<Rightarrow> bool list \<Rightarrow> py_exn + bool list" where
  "mask_loop lib df q [] msk = Inr msk"
| "mask_loop lib df q (col # str_cols) msk =
     (case re_compile lib q of
        Inl e \<Rightarrow> Inl e
      | Inr found \<Rightarrow>
          mask_loop lib df q str_cols
            (map2 (\<lambda>m r. m \<or> found (py_str lib (cell_at df r col))) msk (rows df)))"

text \<open>\<open>df[mask]\<close>.\<close>

definition select_mask :: "bool list \<Rightarrow> 'a list \<Rightarrow> 'a list" where
  "select_mask msk xs = map snd (filter fst (zip msk xs))"

definition search :: "pylib \<Rightarrow> store \<Rightarrow> string \<Rightarrow> int \<Rightarrow> int \<Rightarrow> response" where
  "search lib st q skip limit =
     (case st of
        None \<Rightarrow> Inl (HTTPException 404 ''No CSV data uploaded yet.'')
      | Some df \<Rightarrow>
          let str_cols = select_dtypes df
          in if length str_cols = 0
             then Inr [(''total'', JInt 0), (''data'', JRows [])]
             else
               (case mask_loop lib df q str_cols (replicate (length (rows df)) False) of
                  Inl e \<Rightarrow> Inl (Internal e)
                | Inr msk \<Rightarrow> Inr (page_content df (select_mask msk (rows df)) skip limit)))"

text \<open>The rows \<open>search\<close> selects, before pagination: none on the early return.\<close>

definition search_rows :: "pylib \<Rightarrow> dataframe \<Rightarrow> string \<Rightarrow> py_exn + cell list list" where
  "search_rows lib df q =
     (let str_cols = select_dtypes df
      in if length str_cols = 0 then Inr []
         else
           (case mask_loop lib df q str_cols (replicate (length (rows df)) False) of
              Inl e \<Rightarrow> Inl e
            | Inr msk \<Rightarrow> Inr (select_mask msk (rows df))))"

subsection \<open>What the specification says of a filter and of a search\<close>

text \<open>
  A row satisfies one entry \<open>key = value\<close> of the filters: a key that is no column asks
  nothing; a key that is a column asks that the row's cell equal the cast value.
\<close>

definition satisfies :: "dataframe \<Rightarrow> cell list \<Rightarrow> string \<times> string \<Rightarrow> bool" where
  "satisfies df r kv =
     (case map_of (cols df) (fst kv) of
        None \<Rightarrow> True
      | Some dt \<Rightarrow>
          (case cast_type dt (snd kv) of
             Inl e \<Rightarrow> False
           | Inr c \<Rightarrow> py_eq (cell_at df r (fst kv)) c))"

text \<open>\<open>q\<close> is a substring of \<open>s\<close>.\<close>

fun substring_of :: "string \<Rightarrow> string \<Rightarrow> bool" where
  "substring_of q [] = (q = [])"
| "substring_of q (c # cs) = (take (length q) (c # cs) = q \<or> substring_of q cs)"

text \<open>
  The specification's search: some text column of the row holds a text whose lower case
  contains the lower case of the query.
\<close>

fun text_contains :: "string \<Rightarrow> cell \<Rightarrow> bool" where
  "text_contains q (CStr s) = substring_of (lower q) (lower s)"
| "text_contains q c = False"

definition spec_search_match :: "dataframe \<Rightarrow> string \<Rightarrow> cell list \<Rightarrow> bool" where
  "spec_search_match df q r = list_ex (\<lambda>col. text_contains q (cell_at df r col)) (select_dtypes df)"

subsection \<open>An instance of the library, and example frames\<close>

text \<open>
  The instance follows Python on a part of each function's domain, which the examples
  below stay in. The patterns are those made of ordinary characters and the dot, which
  stands for any character but a newline; on any other pattern the instance answers
  \<open>Unmodelled\<close>. The floats are the integers below \<open>10 ^ 16\<close> in absolute value, written
  with \<open>.0\<close>; on any other the instance gives the empty text. The CSV texts are the empty
  one, which \<open>read_csv\<close> refuses, and the table of two persons.
\<close>

datatype atom = Lit char | AnyChar

definition re_special :: "char \<Rightarrow> bool" where
  "re_special c = (c \<in> set [CHR ''^'', CHR ''$'', CHR ''*'', CHR ''+'', CHR ''?'', CHR ''{'', CHR ''}'',
                            CHR ''['', CHR '']'', CHR 0x5C, CHR ''|'', CHR ''('', CHR '')''])"

definition atom_of :: "char \<Rightarrow> atom" where
  "atom_of c = (if c = CHR ''.'' then AnyChar else Lit c)"

fun atom_match :: "atom \<Rightarrow> char \<Rightarrow> bool" where
  "atom_match (Lit c) d = (lower_char c = lower_char d)"
| "atom_match AnyChar d = (d \<noteq> CHR 0x0A)"

fun match_here :: "atom list \<Rightarrow> string \<Rightarrow> bool" where
  "match_here [] s = True"
| "match_here (a # as) [] = False"
| "match_here (a # as) (d # ds) = (atom_match a d \<and> match_here as ds)"

fun search_from :: "atom list \<Rightarrow> string \<Rightarrow> bool" where
  "search_from as [] = match_here as []"
| "search_from as (d # ds) = (match_here as (d # ds) \<or> search_from as ds)"

definition example_re_compile :: "string \<Rightarrow> py_exn + (string \<Rightarrow> bool)" where
  "example_re_compile pat =
     (if list_ex re_special pat then Inl Unmodelled else Inr (search_from (map atom_of pat)))"

definition example_float_repr :: "rat \<Rightarrow> string" where
  "example_float_repr r =
     (case quotient_of r of (a, b) \<Rightarrow>
        if b = 1 \<and> \<bar>a\<bar> < 10 ^ 16 then str_of_int a @ ''.0'' else [])"

definition people :: dataframe where
  "people = \<lparr>cols = [(''name'', DObject), (''age'', DInt)],
             rows = [[CStr ''Alice'', CInt 30], [CStr ''Bob'', CInt 25]]\<rparr>"

definition people_csv :: string where
  "people_csv = ''name,age'' @ [CHR 0x0A] @ ''Alice,30'' @ [CHR 0x0A] @ ''Bob,25'' @ [CHR 0x0A]"

definition example_read_csv :: "string \<Rightarrow> string + dataframe" where
  "example_read_csv bytes =
     (if bytes = people_csv then Inr people else Inl ''No columns to parse from file'')"

definition example_lib :: pylib where
  "example_lib = \<lparr>re_compile = example_re_compile, float_repr = example_float_repr,
                  read_csv = example_read_csv\<rparr>"

text \<open>The frame of \<open>age\<close> alone: no text column.\<close>

definition ages :: dataframe where
  "ages = \<lparr>cols = [(''age'', DInt)], rows = [[CInt 30], [CInt 25]]\<rparr>"

text \<open>
  The frame of the CSV text \<open>name,age\<close>, \<open>,30\<close>, \<open>Bob,25\<close>: the first row has no name.
\<close>

definition nameless :: dataframe where
  "nameless = \<lparr>cols = [(''name'', DObject), (''age'', DInt)],
               rows = [[CFloat NaN, CInt 30], [CStr ''Bob'', CInt 25]]\<rparr>"

text \<open>A frame with a float column that holds a missing value and an infinity.\<close>

definition scores :: dataframe where
  "scores = \<lparr>cols = [(''name'', DObject), (''score'', DFloat)],
             rows = [[CStr ''Alice'', CFloat (Fin (3 / 2))], [CStr ''Bob'', CFloat NaN],
                     [CStr ''Carol'', CFloat PInf]]\<rparr>"

text \<open>A frame whose columns are named like the pagination parameters.\<close>

definition offsets :: dataframe where
  "offsets = \<lparr>cols = [(''skip'', DInt), (''limit'', DObject)],
              rows = [[CInt 1, CStr ''a''], [CInt 2, CStr ''b''], [CInt 3, CStr ''c'']]\<rparr>"

text \<open>A frame with a float column whose values the instance of the library writes.\<close>

definition weights :: dataframe where
  "weights = \<lparr>cols = [(''name'', DObject), (''weight'', DFloat)],
              rows = [[CStr ''Alice'', CFloat (Fin 2)], [CStr ''Bob'', CFloat PInf]]\<rparr>"

section \<open>Properties\<close>

subsection \<open>\<open>int\<close> reads back what \<open>str\<close> writes\<close>

lemma digit_char_props:
  assumes "d < 10"
  shows "is_digit (digit_char d)" "digit_val (digit_char d) = int d" "\<not> is_space (digit_char d)"
proof -
  have "(of_char (digit_char d) :: nat) = 48 + d"
    using assms by (simp add: digit_char_def)
  moreover have "(of_char (digit_char d) :: int) = int (of_char (digit_char d))"
    by (simp add: of_nat_of_char)
  ultimately show "is_digit (digit_char d)" "digit_val (digit_char d) = int d"
    "\<not> is_space (digit_char d)"
    using assms by (simp_all add: is_digit_def digit_val_def is_space_def)
qed

lemma str_of_nat_digits: "str_of_nat n \<noteq> [] \<and> list_all is_digit (str_of_nat n)"
proof (induction n rule: str_of_nat.induct)
  case (1 n)
  show ?case
  proof (cases "n < 10")
    case True
    then show ?thesis by (simp add: str_of_nat.simps [of n] digit_char_props)
  next
    case False
    then have "n mod 10 < 10" by simp
    with False 1 show ?thesis by (simp add: str_of_nat.simps [of n] digit_char_props)
  qed
qed

lemma int_of_digits_snoc:
  "is_digit c \<Longrightarrow> int_of_digits (xs @ [c]) = 10 * int_of_digits xs + digit_val c"
  by (simp add: int_of_digits_def)

lemma int_of_digits_str_of_nat: "int_of_digits (str_of_nat n) = int n"
proof (induction n rule: str_of_nat.induct)
  case (1 n)
  show ?case
  proof (cases "n < 10")
    case True
    then show ?thesis
      by (simp add: str_of_nat.simps [of n] int_of_digits_def digit_char_props)
  next
    case False
    then have m: "n mod 10 < 10" by simp
    from False 1 have "int_of_digits (str_of_nat (n div 10)) = int (n div 10)" by simp
    with False m show ?thesis
      by (simp add: str_of_nat.simps [of n] int_of_digits_snoc digit_char_props zdiv_int zmod_int)
  qed
qed

lemma digitpart_all_digits: "xs \<noteq> [] \<Longrightarrow> list_all is_digit xs \<Longrightarrow> digitpart xs"
proof (induction xs rule: digitpart.induct)
  case (3 c d cs)
  then have "d \<noteq> CHR ''_''" by (auto simp: is_digit_def)
  with 3 show ?case by simp
qed simp_all

lemma py_strip_id:
  assumes "s \<noteq> []" "\<not> is_space (hd s)" "\<not> is_space (last s)"
  shows "py_strip s = s"
proof -
  from assms have a: "dropWhile is_space s = s" by (cases s) auto
  from assms have "rev s \<noteq> []" "\<not> is_space (hd (rev s))" by (simp_all add: hd_rev)
  then have "dropWhile is_space (rev s) = rev s" by (cases "rev s") auto
  with a show ?thesis by (simp add: py_strip_def)
qed

lemma digit_not_space: "is_digit c \<Longrightarrow> \<not> is_space c"
  by (auto simp: is_digit_def is_space_def Let_def)

lemma digit_not_sign: "is_digit c \<Longrightarrow> c \<noteq> CHR ''-'' \<and> c \<noteq> CHR ''+''"
  by (auto simp: is_digit_def)

lemma py_int_str_of_int: "py_int (str_of_int n) = Inr n"
proof -
  let ?ds = "str_of_nat (nat \<bar>n\<bar>)"
  have ne: "?ds \<noteq> []" and dg: "list_all is_digit ?ds" using str_of_nat_digits by auto
  from ne dg have hd_d: "is_digit (hd ?ds)" and last_d: "is_digit (last ?ds)"
    by (auto simp: list_all_iff)
  have dp: "digitpart ?ds" using ne dg by (rule digitpart_all_digits)
  have val: "int_of_digits ?ds = int (nat \<bar>n\<bar>)" by (rule int_of_digits_str_of_nat)
  show ?thesis
  proof (cases "n < 0")
    case True
    then have s: "str_of_int n = CHR ''-'' # ?ds" by (simp add: str_of_int_def)
    have "\<not> is_space (CHR ''-'')" by (simp add: is_space_def)
    moreover have "\<not> is_space (last ?ds)" using last_d by (rule digit_not_space)
    ultimately have "py_strip (CHR ''-'' # ?ds) = CHR ''-'' # ?ds"
      using ne by (intro py_strip_id) auto
    with s dp val True show ?thesis by (simp add: py_int_def)
  next
    case False
    then have s: "str_of_int n = ?ds" by (simp add: str_of_int_def)
    have st: "py_strip ?ds = ?ds"
      using ne hd_d last_d by (intro py_strip_id) (auto simp: digit_not_space)
    obtain c cs where cs: "?ds = c # cs" using ne by (cases ?ds) auto
    with hd_d have "c \<noteq> CHR ''-''" "c \<noteq> CHR ''+''" using digit_not_sign by auto
    then have "split_sign ?ds = (False, ?ds)" using cs by simp
    with s st dp val False show ?thesis by (simp add: py_int_def)
  qed
qed

subsection \<open>\<open>_cast_type\<close> returns\<close>

lemma py_int_raises: "py_int s = Inl e \<Longrightarrow> e = ValueError"
  by (auto simp: py_int_def split: prod.splits if_splits)

lemma py_float_raises: "py_float s = Inl e \<Longrightarrow> e = ValueError"
  by (auto simp: py_float_def Let_def split: prod.splits if_splits option.splits)

lemma cast_type_returns: "\<exists>c. cast_type dt v = Inr c"
  by (auto simp: cast_type_def cast_try_def split: sum.splits option.splits dest: py_int_raises py_float_raises)

subsection \<open>Slices\<close>

lemma length_iloc:
  assumes "0 \<le> skip" "0 \<le> limit"
  shows "int (length (iloc xs skip (skip + limit))) = min limit (max 0 (int (length xs) - skip))"
proof -
  have a: "slice_bound skip (length xs) = min (nat skip) (length xs)"
    using assms by (simp add: slice_bound_def)
  have b: "slice_bound (skip + limit) (length xs) = min (nat skip + nat limit) (length xs)"
    using assms by (simp add: slice_bound_def nat_add_distrib)
  show ?thesis
    unfolding iloc_def Let_def a b using assms by (simp add: min_def max_def) linarith
qed

subsection \<open>The dict of the query parameters\<close>

lemma dict_of_snoc: "dict_of (ps @ [kv]) = AList.update (fst kv) (snd kv) (dict_of ps)"
  by (simp add: dict_of_def)

lemma map_of_dict_of: "map_of (dict_of ps) = map_of (rev ps)"
proof (induction ps rule: rev_induct)
  case Nil
  show ?case by (simp add: dict_of_def)
next
  case (snoc kv ps)
  then show ?case by (cases kv) (simp add: dict_of_snoc update_conv')
qed

lemma distinct_dict_of: "distinct (map fst (dict_of ps))"
proof (induction ps rule: rev_induct)
  case Nil
  show ?case by (simp add: dict_of_def)
next
  case (snoc kv ps)
  then show ?case by (simp add: dict_of_snoc distinct_update)
qed

lemma pop_dict_of: "pop k (dict_of ps) = dict_of (filter (\<lambda>kv. fst kv \<noteq> k) ps)"
proof (induction ps rule: rev_induct)
  case Nil
  show ?case by (simp add: dict_of_def pop_def)
next
  case (snoc kv ps)
  show ?case
  proof (cases "fst kv = k")
    case True
    with snoc show ?thesis by (simp add: dict_of_snoc pop_def delete_update_same)
  next
    case False
    with snoc show ?thesis by (simp add: dict_of_snoc pop_def delete_update)
  qed
qed

subsection \<open>The filter loop\<close>

lemma filter_loop_eq:
  "filter_loop df items rs = Inr (filter (\<lambda>r. list_all (satisfies df r) items) rs)"
proof (induction items arbitrary: rs)
  case Nil
  show ?case by simp
next
  case (Cons kv items)
  obtain k v where kv: "kv = (k, v)" by (cases kv)
  show ?case
  proof (cases "map_of (cols df) k")
    case None
    then show ?thesis by (simp add: kv Cons satisfies_def)
  next
    case (Some dt)
    obtain c where c: "cast_type dt v = Inr c" using cast_type_returns by blast
    have "filter (\<lambda>r. list_all (satisfies df r) items) (filter (\<lambda>r. py_eq (cell_at df r k) c) rs)
        = filter (\<lambda>r. list_all (satisfies df r) (kv # items)) rs"
      by (simp add: kv Some c satisfies_def conj_commute)
    then show ?thesis by (simp add: kv Some c Cons)
  qed
qed

lemma filter_rows_eq:
  "filter_rows df params =
     Inr (filter (\<lambda>r. list_all (satisfies df r) (pop ''limit'' (pop ''skip'' (dict_of params)))) (rows df))"
  by (simp add: filter_rows_def filter_loop_eq)

lemma get_records_eq:
  "get_records (Some df) params skip limit =
     Inr (page_content df
            (filter (\<lambda>r. list_all (satisfies df r) (pop ''limit'' (pop ''skip'' (dict_of params)))) (rows df))
            skip limit)"
  by (simp add: get_records_def filter_rows_eq)

subsection \<open>The page\<close>

lemma total_of_page_content: "total_of (page_content df rs skip limit) = Some (int (length rs))"
  by (simp add: total_of_def page_content_def Let_def)

lemma data_of_page_content:
  "data_of (page_content df rs skip limit) = to_dict df (clean_df (iloc rs skip (skip + limit)))"
  by (simp add: data_of_def page_content_def Let_def)

lemma length_data_of_page_content:
  "length (data_of (page_content df rs skip limit)) = length (iloc rs skip (skip + limit))"
  by (simp add: data_of_page_content to_dict_def clean_df_def)

lemma iloc_all: "int (length xs) \<le> limit \<Longrightarrow> iloc xs 0 (0 + limit) = xs"
  by (simp add: iloc_def slice_bound_def Let_def)

lemma iloc_Nil: "iloc [] a b = []"
  by (simp add: iloc_def)

subsection \<open>The mask loop\<close>

lemma map2_or_False: "map2 (\<lambda>m r. m \<or> P r) (replicate (length xs) False) xs = map P xs"
  by (induction xs) simp_all

lemma map2_or_map: "map2 (\<lambda>m r. m \<or> Q r) (map P xs) xs = map (\<lambda>r. P r \<or> Q r) xs"
  by (induction xs) simp_all

lemma select_mask_map: "select_mask (map P xs) xs = filter P xs"
  by (induction xs) (simp_all add: select_mask_def)

lemma mask_loop_Inr:
  assumes "re_compile lib q = Inr found"
  shows "mask_loop lib df q cs (map P (rows df)) =
           Inr (map (\<lambda>r. P r \<or> list_ex (\<lambda>col. found (py_str lib (cell_at df r col))) cs) (rows df))"
proof (induction cs arbitrary: P)
  case Nil
  show ?case by simp
next
  case (Cons col cs)
  show ?case
    by (simp add: assms map2_or_map Cons disj_assoc)
qed

lemma mask_loop_Inl:
  "re_compile lib q = Inl e \<Longrightarrow> cs \<noteq> [] \<Longrightarrow> mask_loop lib df q cs msk = Inl e"
  by (cases cs) simp_all

lemma search_rows_eq:
  "search_rows lib df q =
     (if select_dtypes df = [] then Inr []
      else case re_compile lib q of
             Inl e \<Rightarrow> Inl e
           | Inr found \<Rightarrow>
               Inr (filter (\<lambda>r. list_ex (\<lambda>col. found (py_str lib (cell_at df r col))) (select_dtypes df))
                      (rows df)))"
proof (cases "re_compile lib q")
  case (Inl e)
  then show ?thesis by (simp add: search_rows_def mask_loop_Inl)
next
  case (Inr found)
  have "replicate (length (rows df)) False = map (\<lambda>r. False) (rows df)"
    by (simp add: map_replicate_const)
  then show ?thesis
    using mask_loop_Inr [OF Inr, of df "select_dtypes df" "\<lambda>r. False"]
    by (simp add: search_rows_def Inr select_mask_map)
qed

lemma search_eq:
  "search lib (Some df) q skip limit =
     (if select_dtypes df = [] then Inr [(''total'', JInt 0), (''data'', JRows [])]
      else case search_rows lib df q of
             Inl e \<Rightarrow> Inl (Internal e)
           | Inr rs \<Rightarrow> Inr (page_content df rs skip limit))"
  by (simp add: search_def search_rows_def Let_def split: sum.splits)

subsection \<open>Where the search agrees with the specification\<close>

text \<open>
  When the compiled pattern finds exactly the texts that contain the query without regard
  to case, as a query free of special characters does, and every text column holds a text
  in every row, the rows selected are those the specification names.
\<close>

lemma search_rows_plain_query:
  assumes "re_compile lib q = Inr found"
    and "\<And>s. found s = substring_of (lower q) (lower s)"
    and "\<And>r col. r \<in> set (rows df) \<Longrightarrow> col \<in> set (select_dtypes df) \<Longrightarrow> \<exists>s. cell_at df r col = CStr s"
  shows "search_rows lib df q = Inr (filter (spec_search_match df q) (rows df))"
proof -
  have "list_ex (\<lambda>col. found (py_str lib (cell_at df r col))) (select_dtypes df) = spec_search_match df q r"
    if "r \<in> set (rows df)" for r
  proof -
    have "found (py_str lib (cell_at df r col)) = text_contains q (cell_at df r col)"
      if "col \<in> set (select_dtypes df)" for col
    proof -
      from assms(3) [OF \<open>r \<in> set (rows df)\<close> that] obtain s where "cell_at df r col = CStr s" by blast
      then show ?thesis by (simp add: assms(2))
    qed
    then show ?thesis by (simp add: spec_search_match_def list_ex_iff)
  qed
  then have "filter (\<lambda>r. list_ex (\<lambda>col. found (py_str lib (cell_at df r col))) (select_dtypes df)) (rows df)
      = filter (spec_search_match df q) (rows df)"
    by (simp cong: filter_cong)
  moreover have "spec_search_match df q r = False" if "select_dtypes df = []" for r
    using that by (simp add: spec_search_match_def)
  ultimately show ?thesis
    by (simp add: search_rows_eq assms(1))
qed

text \<open>The instance of the library on a query without special characters and without a dot.\<close>

lemma match_here_literal:
  "CHR ''.'' \<notin> set q \<Longrightarrow>
   match_here (map atom_of q) s = (take (length q) (lower s) = lower q)"
proof (induction q arbitrary: s)
  case Nil
  show ?case by (simp add: lower_def)
next
  case (Cons c q)
  show ?case
  proof (cases s)
    case Nil
    then show ?thesis by (simp add: lower_def)
  next
    case (Cons d ds)
    with Cons.prems Cons.IH [of ds] show ?thesis
      by (auto simp: atom_of_def lower_def)
  qed
qed

lemma search_from_literal:
  assumes "CHR ''.'' \<notin> set q"
  shows "search_from (map atom_of q) s = substring_of (lower q) (lower s)"
proof (induction s)
  case Nil
  show ?case using assms by (cases q) (simp_all add: lower_def atom_of_def)
next
  case (Cons d ds)
  have "match_here (map atom_of q) (d # ds) = (take (length q) (lower (d # ds)) = lower q)"
    using assms by (rule match_here_literal)
  with Cons show ?case by (simp add: lower_def)
qed

lemma example_re_compile_plain:
  "\<not> list_ex re_special q \<Longrightarrow> CHR ''.'' \<notin> set q \<Longrightarrow>
   \<exists>found. re_compile example_lib q = Inr found \<and> (\<forall>s. found s = substring_of (lower q) (lower s))"
  by (simp add: example_lib_def example_re_compile_def search_from_literal)

subsection \<open>\<open>float\<close> reads back the text of an infinity\<close>

lemma py_float_inf: "py_float ''inf'' = Inr PInf"
  by code_simp

lemma py_float_minus_inf: "py_float ''-inf'' = Inr NInf"
  by code_simp

lemma py_float_py_str:
  assumes "x \<noteq> NaN"
    and "\<And>q. x = Fin q \<Longrightarrow> py_float (float_repr lib q) = Inr (Fin q)"
  shows "py_float (py_str lib (CFloat x)) = Inr x"
  using assms by (cases x) (simp_all add: py_float_inf py_float_minus_inf)

section \<open>The claims\<close>

text \<open>
  C1. The claim: \<open>/search\<close> returns exactly the rows in which some text column's value,
  lower-cased, contains the lower-cased query as a substring. The handler passes the query
  to \<open>Series.str.contains\<close> without \<open>regex=False\<close>, so the query is compiled as a regular
  expression: on the table of two persons the query of one dot selects both rows, though
  no name contains a dot.
\<close>

theorem search_compiles_query_as_pattern:
  "search example_lib (Some people) ''.'' 0 100 =
     Inr [(''total'', JInt 2), (''skip'', JInt 0), (''limit'', JInt 100),
          (''data'', JRows [[(''name'', CStr ''Alice''), (''age'', CInt 30)],
                           [(''name'', CStr ''Bob''), (''age'', CInt 25)]])]
   \<and> \<not> spec_search_match people ''.'' [CStr ''Alice'', CInt 30]
   \<and> \<not> spec_search_match people ''.'' [CStr ''Bob'', CInt 25]"
  by code_simp

text \<open>
  C2. For \<open>skip \<ge> 0\<close> and \<open>limit \<ge> 0\<close>, the page of \<open>/records\<close> and of \<open>/search\<close> has
  \<open>min(limit, max(0, total - skip))\<close> rows, and \<open>total\<close> is the number of rows selected
  before pagination, which does not depend on \<open>skip\<close> and \<open>limit\<close>. \<open>/records\<close> always
  answers on a loaded store; \<open>/search\<close> answers unless compiling the query raises.
\<close>

theorem page_length_and_total:
  assumes "0 \<le> skip" and "0 \<le> limit"
  shows "(\<exists>c rs. get_records (Some df) params skip limit = Inr c \<and> filter_rows df params = Inr rs \<and>
            total_of c = Some (int (length rs)) \<and>
            int (length (data_of c)) = min limit (max 0 (int (length rs) - skip)))
       \<and> (\<forall>c. search lib (Some df) q skip limit = Inr c \<longrightarrow>
            (\<exists>rs. search_rows lib df q = Inr rs \<and>
               total_of c = Some (int (length rs)) \<and>
               int (length (data_of c)) = min limit (max 0 (int (length rs) - skip))))"
proof (intro conjI allI impI)
  show "\<exists>c rs. get_records (Some df) params skip limit = Inr c \<and> filter_rows df params = Inr rs \<and>
            total_of c = Some (int (length rs)) \<and>
            int (length (data_of c)) = min limit (max 0 (int (length rs) - skip))"
    using assms
    by (simp add: get_records_eq filter_rows_eq total_of_page_content
        length_data_of_page_content length_iloc)
next
  fix c
  assume s: "search lib (Some df) q skip limit = Inr c"
  show "\<exists>rs. search_rows lib df q = Inr rs \<and> total_of c = Some (int (length rs)) \<and>
          int (length (data_of c)) = min limit (max 0 (int (length rs) - skip))"
  proof (cases "select_dtypes df = []")
    case True
    then have "c = [(''total'', JInt 0), (''data'', JRows [])]" using s by (simp add: search_eq)
    moreover have "search_rows lib df q = Inr []" using True by (simp add: search_rows_def)
    ultimately show ?thesis using assms by (simp add: total_of_def data_of_def)
  next
    case False
    then obtain rs where rs: "search_rows lib df q = Inr rs" and c: "c = page_content df rs skip limit"
      using s by (auto simp: search_eq split: sum.splits)
    show ?thesis
      using assms
      by (simp add: rs c total_of_page_content length_data_of_page_content length_iloc)
  qed
qed

theorem page_length_and_total_witness:
  "get_records (Some people) [] 1 5 =
     Inr [(''total'', JInt 2), (''skip'', JInt 1), (''limit'', JInt 5),
          (''data'', JRows [[(''name'', CStr ''Bob''), (''age'', CInt 25)]])]
   \<and> search example_lib (Some people) ''o'' 0 1 =
     Inr [(''total'', JInt 1), (''skip'', JInt 0), (''limit'', JInt 1),
          (''data'', JRows [[(''name'', CStr ''Bob''), (''age'', CInt 25)]])]
   \<and> (\<exists>c rs. get_records (Some people) [] 1 5 = Inr c \<and> filter_rows people [] = Inr rs \<and>
         total_of c = Some (int (length rs)) \<and>
         int (length (data_of c)) = min 5 (max 0 (int (length rs) - 1)))
   \<and> (\<exists>rs. search_rows example_lib people ''o'' = Inr rs \<and> int (length rs) = 1)"
proof -
  have g: "get_records (Some people) [] 1 5 =
     Inr [(''total'', JInt 2), (''skip'', JInt 1), (''limit'', JInt 5),
          (''data'', JRows [[(''name'', CStr ''Bob''), (''age'', CInt 25)]])]"
    by code_simp
  have s: "search example_lib (Some people) ''o'' 0 1 =
     Inr [(''total'', JInt 1), (''skip'', JInt 0), (''limit'', JInt 1),
          (''data'', JRows [[(''name'', CStr ''Bob''), (''age'', CInt 25)]])]"
    by code_simp
  have t: "total_of [(''total'', JInt 1), (''skip'', JInt 0), (''limit'', JInt 1),
          (''data'', JRows [[(''name'', CStr ''Bob''), (''age'', CInt 25)]])] = Some 1"
    by (simp add: total_of_def)
  have h1: "(0::int) \<le> 1" and h5: "(0::int) \<le> 5" and h0: "(0::int) \<le> 0" by simp_all
  note a = page_length_and_total [OF h1 h5, of people "[]" example_lib "''o''"]
  note b = page_length_and_total [OF h0 h1, of people "[]" example_lib "''o''"]
  from b s t have "\<exists>rs. search_rows example_lib people ''o'' = Inr rs \<and> int (length rs) = 1"
    by auto
  with a g s show ?thesis by simp
qed

text \<open>
  C3, as stated: filtering by \<open>c = \<close> the textual form of \<open>r[c]\<close> includes \<open>r\<close>, for every
  row and column. It fails where the value is missing: the first row of \<open>nameless\<close> has no
  name, the text of its name is \<open>nan\<close>, and the filter \<open>name=nan\<close> selects no row.
\<close>

theorem filter_by_own_text_counterexample:
  "[CFloat NaN, CInt 30] \<in> set (rows nameless)
   \<and> py_str example_lib (cell_at nameless [CFloat NaN, CInt 30] ''name'') = ''nan''
   \<and> filter_rows nameless [(''name'', ''nan'')] = Inr []
   \<and> get_records (Some nameless) [(''name'', ''nan'')] 0 100 =
       Inr [(''total'', JInt 0), (''skip'', JInt 0), (''limit'', JInt 100), (''data'', JRows [])]"
  by code_simp

text \<open>
  C3, amended: for every row \<open>r\<close> of the table and every column \<open>c\<close>, not named \<open>skip\<close> or
  \<open>limit\<close>, in which \<open>r\<close> holds a present value (an integer of an integer column, a text
  of a text column, or a float other than NaN of a float column), the request \<open>/records\<close>
  with the single filter \<open>c = \<close> the textual form \<open>str(r[c])\<close>, and so with \<open>skip\<close> 0 and
  \<open>limit\<close> 100, selects \<open>r\<close>: \<open>r\<close> is among the rows that \<open>total\<close> counts, and the page holds
  the record of \<open>r\<close> when the table has at most 100 rows. For a finite float this takes of
  the library that \<open>float\<close> reads the text of that float back as the float, as it does of
  Python's \<open>repr\<close>.
\<close>

theorem filter_by_own_text_includes_row:
  assumes "r \<in> set (rows df)"
    and "map_of (cols df) c = Some dt"
    and "c \<noteq> ''skip''" and "c \<noteq> ''limit''"
    and "(dt = DInt \<and> (\<exists>n. cell_at df r c = CInt n))
       \<or> ((dt = DObject \<or> dt = DString) \<and> (\<exists>s. cell_at df r c = CStr s))
       \<or> (dt = DFloat \<and> (\<exists>x. cell_at df r c = CFloat x \<and> x \<noteq> NaN \<and>
             (\<forall>q. x = Fin q \<longrightarrow> py_float (float_repr lib q) = Inr (Fin q))))"
  shows "\<exists>rs content. filter_rows df [(c, py_str lib (cell_at df r c))] = Inr rs \<and> r \<in> set rs
           \<and> get_records (Some df) [(c, py_str lib (cell_at df r c))] 0 100 = Inr content
           \<and> total_of content = Some (int (length rs))
           \<and> (length (rows df) \<le> 100 \<longrightarrow>
                zip (map fst (cols df)) (map clean_cell r) \<in> set (data_of content))"
proof -
  let ?t = "py_str lib (cell_at df r c)"
  from assms(5) consider
      (an_int) n where "dt = DInt" "cell_at df r c = CInt n"
    | (a_text) s where "dt = DObject \<or> dt = DString" "cell_at df r c = CStr s"
    | (a_float) x where "dt = DFloat" "cell_at df r c = CFloat x" "x \<noteq> NaN"
        "\<forall>q. x = Fin q \<longrightarrow> py_float (float_repr lib q) = Inr (Fin q)"
    by blast
  then have "cast_type dt ?t = Inr (cell_at df r c) \<and> py_eq (cell_at df r c) (cell_at df r c)"
  proof cases
    case an_int
    then show ?thesis
      by (simp add: cast_type_def cast_try_def is_integer_dtype_def py_int_str_of_int py_eq_def fl_eq_def)
  next
    case a_text
    then show ?thesis
      by (auto simp: cast_type_def cast_try_def is_integer_dtype_def is_float_dtype_def py_eq_def)
  next
    case a_float
    from a_float(3,4) have "py_float (py_str lib (CFloat x)) = Inr x"
      by (intro py_float_py_str) simp_all
    with a_float(1,2,3) show ?thesis
      by (simp add: cast_type_def cast_try_def is_integer_dtype_def is_float_dtype_def py_eq_def fl_eq_def)
  qed
  with assms(2) have sat: "satisfies df r (c, ?t)"
    by (simp add: satisfies_def)
  have items: "pop ''limit'' (pop ''skip'' (dict_of [(c, ?t)])) = [(c, ?t)]"
    using assms(3,4) by (simp add: dict_of_def pop_def)
  let ?rs = "filter (\<lambda>r. list_all (satisfies df r) [(c, ?t)]) (rows df)"
  from sat assms(1) have mem: "r \<in> set ?rs" by simp
  have fr: "filter_rows df [(c, ?t)] = Inr ?rs"
    by (simp add: filter_rows_eq items)
  have gr: "get_records (Some df) [(c, ?t)] 0 100 = Inr (page_content df ?rs 0 100)"
    by (simp add: get_records_eq items)
  have page: "zip (map fst (cols df)) (map clean_cell r) \<in> set (data_of (page_content df ?rs 0 100))"
    if "length (rows df) \<le> 100"
  proof -
    have "length ?rs \<le> length (rows df)" by simp
    with that have "int (length ?rs) \<le> 100" by linarith
    then have "iloc ?rs 0 (0 + 100) = ?rs" by (rule iloc_all)
    then have "data_of (page_content df ?rs 0 100) = to_dict df (clean_df ?rs)"
      by (simp add: data_of_page_content)
    moreover have "zip (map fst (cols df)) (map clean_cell r) \<in> set (to_dict df (clean_df ?rs))"
      using mem unfolding to_dict_def clean_df_def set_map by blast
    ultimately show ?thesis by simp
  qed
  from fr mem gr page show ?thesis
    by (auto simp: total_of_page_content)
qed

theorem filter_by_own_text_includes_row_witness:
  "py_str example_lib (cell_at people [CStr ''Alice'', CInt 30] ''age'') = ''30''
   \<and> get_records (Some people) [(''age'', ''30'')] 0 100 =
       Inr [(''total'', JInt 1), (''skip'', JInt 0), (''limit'', JInt 100),
            (''data'', JRows [[(''name'', CStr ''Alice''), (''age'', CInt 30)]])]
   \<and> py_str example_lib (cell_at people [CStr ''Bob'', CInt 25] ''name'') = ''Bob''
   \<and> get_records (Some people) [(''name'', ''Bob'')] 0 100 =
       Inr [(''total'', JInt 1), (''skip'', JInt 0), (''limit'', JInt 100),
            (''data'', JRows [[(''name'', CStr ''Bob''), (''age'', CInt 25)]])]
   \<and> py_str example_lib (cell_at weights [CStr ''Alice'', CFloat (Fin 2)] ''weight'') = ''2.0''
   \<and> get_records (Some weights) [(''weight'', ''2.0'')] 0 100 =
       Inr [(''total'', JInt 1), (''skip'', JInt 0), (''limit'', JInt 100),
            (''data'', JRows [[(''name'', CStr ''Alice''), (''weight'', CFloat (Fin 2))]])]
   \<and> py_str example_lib (cell_at weights [CStr ''Bob'', CFloat PInf] ''weight'') = ''inf''
   \<and> get_records (Some weights) [(''weight'', ''inf'')] 0 100 =
       Inr [(''total'', JInt 1), (''skip'', JInt 0), (''limit'', JInt 100),
            (''data'', JRows [[(''name'', CStr ''Bob''), (''weight'', CNone)]])]
   \<and> (\<exists>rs. filter_rows people [(''age'', ''30'')] = Inr rs \<and> [CStr ''Alice'', CInt 30] \<in> set rs)
   \<and> (\<exists>rs. filter_rows people [(''name'', ''Bob'')] = Inr rs \<and> [CStr ''Bob'', CInt 25] \<in> set rs)
   \<and> (\<exists>rs. filter_rows weights [(''weight'', ''2.0'')] = Inr rs \<and> [CStr ''Alice'', CFloat (Fin 2)] \<in> set rs)
   \<and> (\<exists>rs. filter_rows weights [(''weight'', ''inf'')] = Inr rs \<and> [CStr ''Bob'', CFloat PInf] \<in> set rs)"
proof -
  let ?alice = "[CStr ''Alice'', CInt 30]" and ?bob = "[CStr ''Bob'', CInt 25]"
  let ?wa = "[CStr ''Alice'', CFloat (Fin 2)]" and ?wb = "[CStr ''Bob'', CFloat PInf]"
  have t1: "py_str example_lib (cell_at people ?alice ''age'') = ''30''" by code_simp
  have t2: "py_str example_lib (cell_at people ?bob ''name'') = ''Bob''" by code_simp
  have t3: "py_str example_lib (cell_at weights ?wa ''weight'') = ''2.0''" by code_simp
  have t4: "py_str example_lib (cell_at weights ?wb ''weight'') = ''inf''" by code_simp
  have g1: "get_records (Some people) [(''age'', ''30'')] 0 100 =
       Inr [(''total'', JInt 1), (''skip'', JInt 0), (''limit'', JInt 100),
            (''data'', JRows [[(''name'', CStr ''Alice''), (''age'', CInt 30)]])]"
    by code_simp
  have g2: "get_records (Some people) [(''name'', ''Bob'')] 0 100 =
       Inr [(''total'', JInt 1), (''skip'', JInt 0), (''limit'', JInt 100),
            (''data'', JRows [[(''name'', CStr ''Bob''), (''age'', CInt 25)]])]"
    by code_simp
  have g3: "get_records (Some weights) [(''weight'', ''2.0'')] 0 100 =
       Inr [(''total'', JInt 1), (''skip'', JInt 0), (''limit'', JInt 100),
            (''data'', JRows [[(''name'', CStr ''Alice''), (''weight'', CFloat (Fin 2))]])]"
    by code_simp
  have g4: "get_records (Some weights) [(''weight'', ''inf'')] 0 100 =
       Inr [(''total'', JInt 1), (''skip'', JInt 0), (''limit'', JInt 100),
            (''data'', JRows [[(''name'', CStr ''Bob''), (''weight'', CNone)]])]"
    by code_simp
  have n: "''age'' \<noteq> ''skip''" "''age'' \<noteq> ''limit''" "''name'' \<noteq> ''skip''" "''name'' \<noteq> ''limit''"
    "''weight'' \<noteq> ''skip''" "''weight'' \<noteq> ''limit''"
    by simp_all
  have reads: "py_float (float_repr example_lib 2) = Inr (Fin 2)" by code_simp
  have r1: "?alice \<in> set (rows people)" and r2: "?bob \<in> set (rows people)"
    by (simp_all add: people_def)
  have r3: "?wa \<in> set (rows weights)" and r4: "?wb \<in> set (rows weights)"
    by (simp_all add: weights_def)
  have c1: "map_of (cols people) ''age'' = Some DInt" and c2: "map_of (cols people) ''name'' = Some DObject"
    by (simp_all add: people_def)
  have c3: "map_of (cols weights) ''weight'' = Some DFloat" by (simp add: weights_def)
  have v1: "cell_at people ?alice ''age'' = CInt 30" and v2: "cell_at people ?bob ''name'' = CStr ''Bob''"
    by (simp_all add: people_def cell_at_def)
  have v3: "cell_at weights ?wa ''weight'' = CFloat (Fin 2)" and v4: "cell_at weights ?wb ''weight'' = CFloat PInf"
    by (simp_all add: weights_def cell_at_def)
  have h1: "(DInt = DInt \<and> (\<exists>n. cell_at people ?alice ''age'' = CInt n))
       \<or> ((DInt = DObject \<or> DInt = DString) \<and> (\<exists>s. cell_at people ?alice ''age'' = CStr s))
       \<or> (DInt = DFloat \<and> (\<exists>x. cell_at people ?alice ''age'' = CFloat x \<and> x \<noteq> NaN \<and>
             (\<forall>q. x = Fin q \<longrightarrow> py_float (float_repr example_lib q) = Inr (Fin q))))"
    using v1 by simp
  have h2: "(DObject = DInt \<and> (\<exists>n. cell_at people ?bob ''name'' = CInt n))
       \<or> ((DObject = DObject \<or> DObject = DString) \<and> (\<exists>s. cell_at people ?bob ''name'' = CStr s))
       \<or> (DObject = DFloat \<and> (\<exists>x. cell_at people ?bob ''name'' = CFloat x \<and> x \<noteq> NaN \<and>
             (\<forall>q. x = Fin q \<longrightarrow> py_float (float_repr example_lib q) = Inr (Fin q))))"
    using v2 by simp
  have h3: "(DFloat = DInt \<and> (\<exists>n. cell_at weights ?wa ''weight'' = CInt n))
       \<or> ((DFloat = DObject \<or> DFloat = DString) \<and> (\<exists>s. cell_at weights ?wa ''weight'' = CStr s))
       \<or> (DFloat = DFloat \<and> (\<exists>x. cell_at weights ?wa ''weight'' = CFloat x \<and> x \<noteq> NaN \<and>
             (\<forall>q. x = Fin q \<longrightarrow> py_float (float_repr example_lib q) = Inr (Fin q))))"
    using v3 reads by simp
  have h4: "(DFloat = DInt \<and> (\<exists>n. cell_at weights ?wb ''weight'' = CInt n))
       \<or> ((DFloat = DObject \<or> DFloat = DString) \<and> (\<exists>s. cell_at weights ?wb ''weight'' = CStr s))
       \<or> (DFloat = DFloat \<and> (\<exists>x. cell_at weights ?wb ''weight'' = CFloat x \<and> x \<noteq> NaN \<and>
             (\<forall>q. x = Fin q \<longrightarrow> py_float (float_repr example_lib q) = Inr (Fin q))))"
    using v4 by simp
  from filter_by_own_text_includes_row [OF r1 c1 n(1,2) h1] t1
  have a1: "\<exists>rs. filter_rows people [(''age'', ''30'')] = Inr rs \<and> ?alice \<in> set rs"
    by auto
  from filter_by_own_text_includes_row [OF r2 c2 n(3,4) h2] t2
  have a2: "\<exists>rs. filter_rows people [(''name'', ''Bob'')] = Inr rs \<and> ?bob \<in> set rs"
    by auto
  from filter_by_own_text_includes_row [OF r3 c3 n(5,6) h3] t3
  have a3: "\<exists>rs. filter_rows weights [(''weight'', ''2.0'')] = Inr rs \<and> ?wa \<in> set rs"
    by auto
  from filter_by_own_text_includes_row [OF r4 c3 n(5,6) h4] t4
  have a4: "\<exists>rs. filter_rows weights [(''weight'', ''inf'')] = Inr rs \<and> ?wb \<in> set rs"
    by auto
  from t1 t2 t3 t4 g1 g2 g3 g4 a1 a2 a3 a4 show ?thesis by blast
qed

text \<open>
  C4. An upload that fails, at the check of the file name, at reading the file or at
  parsing it, answers with an error and leaves the store as it was; the store changes only
  with a successful answer.
\<close>

theorem failed_upload_keeps_store:
  "(filename file = None \<longrightarrow> upload_csv lib st file = (st, Inl (Internal AttributeError)))
   \<and> (\<forall>name. filename file = Some name \<and> \<not> endswith name ''.csv'' \<longrightarrow>
        upload_csv lib st file = (st, Inl (HTTPException 400 ''Only CSV files are supported.'')))
   \<and> (\<forall>name bytes e. filename file = Some name \<and> endswith name ''.csv'' \<and>
        contents file = Inr bytes \<and> read_csv lib bytes = Inl e \<longrightarrow>
        upload_csv lib st file = (st, Inl (HTTPException 500 (''Failed to read CSV: '' @ e))))
   \<and> (\<forall>e. snd (upload_csv lib st file) = Inl e \<longrightarrow> fst (upload_csv lib st file) = st)"
  by (auto simp: upload_csv_def split: option.splits sum.splits if_splits)

theorem failed_upload_keeps_store_witness:
  "upload_csv example_lib (Some people) \<lparr>filename = Some ''data.txt'', contents = Inr people_csv\<rparr>
     = (Some people, Inl (HTTPException 400 ''Only CSV files are supported.''))
   \<and> upload_csv example_lib (Some people) \<lparr>filename = Some ''empty.csv'', contents = Inr []\<rparr>
     = (Some people, Inl (HTTPException 500 ''Failed to read CSV: No columns to parse from file''))
   \<and> upload_csv example_lib None \<lparr>filename = Some ''empty.csv'', contents = Inr []\<rparr>
     = (None, Inl (HTTPException 500 ''Failed to read CSV: No columns to parse from file''))
   \<and> fst (upload_csv example_lib None \<lparr>filename = Some ''people.csv'', contents = Inr people_csv\<rparr>)
     = Some people"
proof -
  let ?bad = "\<lparr>filename = Some ''data.txt'', contents = Inr people_csv\<rparr>"
  let ?empty = "\<lparr>filename = Some ''empty.csv'', contents = Inr []\<rparr>"
  have n: "\<not> endswith ''data.txt'' ''.csv''" and y: "endswith ''empty.csv'' ''.csv''"
    by (simp_all add: endswith_def)
  have p: "read_csv example_lib [] = Inl ''No columns to parse from file''"
    by (simp add: example_lib_def example_read_csv_def people_csv_def)
  have a: "upload_csv example_lib (Some people) ?bad
     = (Some people, Inl (HTTPException 400 ''Only CSV files are supported.''))"
    using failed_upload_keeps_store [of ?bad example_lib "Some people"] n by simp
  have b: "upload_csv example_lib st ?empty
     = (st, Inl (HTTPException 500 ''Failed to read CSV: No columns to parse from file''))" for st
    using failed_upload_keeps_store [of ?empty example_lib st] y p by simp
  have c: "fst (upload_csv example_lib None \<lparr>filename = Some ''people.csv'', contents = Inr people_csv\<rparr>)
     = Some people"
    by (simp add: upload_csv_def endswith_def example_lib_def example_read_csv_def)
  from a b c show ?thesis by simp
qed

text \<open>
  C5. The claim: on a table without text columns \<open>/search\<close> answers with an empty result,
  and every answer of \<open>/search\<close> carries \<open>total\<close>, \<open>skip\<close>, \<open>limit\<close> and \<open>data\<close>. On the frame
  of ages the answer is empty and is no error, but it comes from the early \<open>return\<close>, whose
  dict has \<open>total\<close> and \<open>data\<close> only.
\<close>

theorem search_without_text_columns:
  "search example_lib (Some ages) ''a'' 0 100 = Inr [(''total'', JInt 0), (''data'', JRows [])]
   \<and> map fst [(''total'', JInt 0), (''data'', JRows [])] \<noteq> [''total'', ''skip'', ''limit'', ''data'']
   \<and> map_of [(''total'', JInt 0), (''data'', JRows [])] ''skip'' = None
   \<and> map_of [(''total'', JInt 0), (''data'', JRows [])] ''limit'' = None"
  by code_simp

text \<open>
  C6. \<open>_cast_type\<close> never raises. On an integer column a text that \<open>int\<close> reads gives the
  integer, on a float column a text that \<open>float\<close> reads gives the float; a text that fails
  to parse, and any text on a column of another dtype, comes back as it is. So the filter
  loop ends for every set of parameters, and \<open>/records\<close> answers on every loaded store.
\<close>

theorem cast_type_falls_back_to_text:
  "(\<exists>c. cast_type dt v = Inr c)
   \<and> (\<forall>n. is_integer_dtype dt \<and> py_int v = Inr n \<longrightarrow> cast_type dt v = Inr (CInt n))
   \<and> (\<forall>x. is_float_dtype dt \<and> py_float v = Inr x \<longrightarrow> cast_type dt v = Inr (CFloat x))
   \<and> (\<forall>e. is_integer_dtype dt \<and> py_int v = Inl e \<longrightarrow> cast_type dt v = Inr (CStr v))
   \<and> (\<forall>e. is_float_dtype dt \<and> py_float v = Inl e \<longrightarrow> cast_type dt v = Inr (CStr v))
   \<and> (\<not> is_integer_dtype dt \<and> \<not> is_float_dtype dt \<longrightarrow> cast_type dt v = Inr (CStr v))
   \<and> (\<exists>rs c. filter_rows df params = Inr rs \<and> get_records (Some df) params skip limit = Inr c)"
proof -
  have "\<exists>rs c. filter_rows df params = Inr rs \<and> get_records (Some df) params skip limit = Inr c"
    by (simp add: filter_rows_eq get_records_eq)
  moreover have "\<forall>e. py_int v = Inl e \<longrightarrow> e = ValueError" using py_int_raises by blast
  moreover have "\<forall>e. py_float v = Inl e \<longrightarrow> e = ValueError" using py_float_raises by blast
  ultimately show ?thesis
    by (auto simp: cast_type_def cast_try_def is_integer_dtype_def is_float_dtype_def
        split: sum.splits option.splits)
qed

theorem cast_type_falls_back_to_text_witness:
  "py_int ''30'' = Inr 30 \<and> cast_type DInt ''30'' = Inr (CInt 30)
   \<and> py_int ''abc'' = Inl ValueError \<and> cast_type DInt ''abc'' = Inr (CStr ''abc'')
   \<and> py_float ''1.5'' = Inr (Fin (3 / 2)) \<and> cast_type DFloat ''1.5'' = Inr (CFloat (Fin (3 / 2)))
   \<and> py_float ''1.5x'' = Inl ValueError \<and> cast_type DFloat ''1.5x'' = Inr (CStr ''1.5x'')
   \<and> cast_type DObject ''30'' = Inr (CStr ''30'')
   \<and> get_records (Some people) [(''age'', ''abc'')] 0 100 =
       Inr [(''total'', JInt 0), (''skip'', JInt 0), (''limit'', JInt 100), (''data'', JRows [])]"
proof -
  have i1: "py_int ''30'' = Inr 30" by code_simp
  have i2: "py_int ''abc'' = Inl ValueError" by code_simp
  have f1: "py_float ''1.5'' = Inr (Fin (3 / 2))" by code_simp
  have f2: "py_float ''1.5x'' = Inl ValueError" by code_simp
  have d: "is_integer_dtype DInt" "\<not> is_integer_dtype DFloat" "is_float_dtype DFloat"
    "\<not> is_integer_dtype DObject" "\<not> is_float_dtype DObject"
    by (simp_all add: is_integer_dtype_def is_float_dtype_def)
  have g: "get_records (Some people) [(''age'', ''abc'')] 0 100 =
       Inr [(''total'', JInt 0), (''skip'', JInt 0), (''limit'', JInt 100), (''data'', JRows [])]"
    by code_simp
  from cast_type_falls_back_to_text [of DInt "''30''" people "[]" 0 100] i1 d
  have a: "cast_type DInt ''30'' = Inr (CInt 30)" by blast
  from cast_type_falls_back_to_text [of DInt "''abc''" people "[]" 0 100] i2 d
  have b: "cast_type DInt ''abc'' = Inr (CStr ''abc'')" by blast
  from cast_type_falls_back_to_text [of DFloat "''1.5''" people "[]" 0 100] f1 d
  have c: "cast_type DFloat ''1.5'' = Inr (CFloat (Fin (3 / 2)))" by blast
  from cast_type_falls_back_to_text [of DFloat "''1.5x''" people "[]" 0 100] f2 d
  have e: "cast_type DFloat ''1.5x'' = Inr (CStr ''1.5x'')" by blast
  from cast_type_falls_back_to_text [of DObject "''30''" people "[]" 0 100] d
  have f: "cast_type DObject ''30'' = Inr (CStr ''30'')" by blast
  from i1 i2 f1 f2 a b c e f g show ?thesis by simp
qed



text \<open>
  C8. The equality filters of \<open>/records\<close> are the entries of the dict of the query
  parameters, \<open>skip\<close> and \<open>limit\<close> apart. The request always succeeds, and selects exactly
  the rows that satisfy every entry: an entry whose key is no column is satisfied by every
  row, an entry whose key is a column is satisfied by the rows whose cell in that column
  equals the cast value, and with no entry every row is selected.
\<close>

theorem filters_are_conjunction_over_columns:
  "filter_rows df params =
     Inr (filter (\<lambda>r. list_all (satisfies df r) (pop ''limit'' (pop ''skip'' (dict_of params)))) (rows df))
   \<and> (\<exists>rs. filter_rows df params = Inr rs \<and>
         get_records (Some df) params skip limit = Inr (page_content df rs skip limit))
   \<and> (map_of (cols df) k = None \<longrightarrow> satisfies df r (k, v))
   \<and> (\<forall>dt. map_of (cols df) k = Some dt \<longrightarrow>
         (\<exists>c. cast_type dt v = Inr c \<and> satisfies df r (k, v) = py_eq (cell_at df r k) c))
   \<and> filter_rows df [] = Inr (rows df)
   \<and> (map_of (cols df) k = None \<and> k \<noteq> ''skip'' \<and> k \<noteq> ''limit'' \<longrightarrow>
         get_records (Some df) [(k, v)] skip limit = get_records (Some df) [] skip limit)"
proof (intro conjI allI impI)
  show "filter_rows df params =
     Inr (filter (\<lambda>r. list_all (satisfies df r) (pop ''limit'' (pop ''skip'' (dict_of params)))) (rows df))"
    by (rule filter_rows_eq)
  show "\<exists>rs. filter_rows df params = Inr rs \<and>
         get_records (Some df) params skip limit = Inr (page_content df rs skip limit)"
    by (simp add: filter_rows_eq get_records_eq)
  show "filter_rows df [] = Inr (rows df)"
    by (simp add: filter_rows_eq dict_of_def pop_def)
next
  assume "map_of (cols df) k = None"
  then show "satisfies df r (k, v)" by (simp add: satisfies_def)
next
  fix dt
  assume dt: "map_of (cols df) k = Some dt"
  obtain c where "cast_type dt v = Inr c" using cast_type_returns by blast
  with dt show "\<exists>c. cast_type dt v = Inr c \<and> satisfies df r (k, v) = py_eq (cell_at df r k) c"
    by (simp add: satisfies_def)
next
  assume "map_of (cols df) k = None \<and> k \<noteq> ''skip'' \<and> k \<noteq> ''limit''"
  then show "get_records (Some df) [(k, v)] skip limit = get_records (Some df) [] skip limit"
    by (simp add: get_records_eq dict_of_def pop_def satisfies_def)
qed

theorem filters_are_conjunction_over_columns_witness:
  "get_records (Some people) [(''name'', ''Bob''), (''age'', ''25''), (''colour'', ''red'')] 0 100 =
     Inr [(''total'', JInt 1), (''skip'', JInt 0), (''limit'', JInt 100),
          (''data'', JRows [[(''name'', CStr ''Bob''), (''age'', CInt 25)]])]
   \<and> get_records (Some people) [(''name'', ''Bob''), (''age'', ''30'')] 0 100 =
     Inr [(''total'', JInt 0), (''skip'', JInt 0), (''limit'', JInt 100), (''data'', JRows [])]
   \<and> satisfies people [CStr ''Bob'', CInt 25] (''colour'', ''red'')
   \<and> (\<exists>c. cast_type DInt ''25'' = Inr c \<and>
         satisfies people [CStr ''Bob'', CInt 25] (''age'', ''25'') = py_eq (cell_at people [CStr ''Bob'', CInt 25] ''age'') c)
   \<and> filter_rows people [] = Inr (rows people)
   \<and> get_records (Some people) [(''colour'', ''red'')] 0 100 = get_records (Some people) [] 0 100"
proof -
  have g1: "get_records (Some people) [(''name'', ''Bob''), (''age'', ''25''), (''colour'', ''red'')] 0 100 =
     Inr [(''total'', JInt 1), (''skip'', JInt 0), (''limit'', JInt 100),
          (''data'', JRows [[(''name'', CStr ''Bob''), (''age'', CInt 25)]])]"
    by code_simp
  have g2: "get_records (Some people) [(''name'', ''Bob''), (''age'', ''30'')] 0 100 =
     Inr [(''total'', JInt 0), (''skip'', JInt 0), (''limit'', JInt 100), (''data'', JRows [])]"
    by code_simp
  have m1: "map_of (cols people) ''colour'' = None" and m2: "map_of (cols people) ''age'' = Some DInt"
    by (simp_all add: people_def)
  have n: "''colour'' \<noteq> ''skip''" "''colour'' \<noteq> ''limit''" by simp_all
  note a = filters_are_conjunction_over_columns
    [of people "[]" 0 100 "''colour''" "[CStr ''Bob'', CInt 25]" "''red''"]
  note b = filters_are_conjunction_over_columns
    [of people "[]" 0 100 "''age''" "[CStr ''Bob'', CInt 25]" "''25''"]
  from a m1 n have a1: "satisfies people [CStr ''Bob'', CInt 25] (''colour'', ''red'')"
    and a2: "filter_rows people [] = Inr (rows people)"
    and a3: "get_records (Some people) [(''colour'', ''red'')] 0 100 = get_records (Some people) [] 0 100"
    by blast+
  from b m2 have b1: "\<exists>c. cast_type DInt ''25'' = Inr c \<and>
         satisfies people [CStr ''Bob'', CInt 25] (''age'', ''25'') = py_eq (cell_at people [CStr ''Bob'', CInt 25] ''age'') c"
    by blast
  from g1 g2 a1 a2 a3 b1 show ?thesis by blast
qed

text \<open>
  C9. In every answer of \<open>/records\<close> and \<open>/search\<close> the data are the records of the rows of
  the page, the slice \<open>skip : skip + limit\<close> of the selected rows, each cell cleaned: a NaN
  and either infinity become \<open>None\<close>, every other cell is kept, so no value of the data is
  a NaN or an infinity. The cleaning is applied to the page, after the slice.
\<close>

theorem page_is_cleaned:
  "(\<forall>c. get_records (Some df) params skip limit = Inr c \<longrightarrow>
      (\<exists>rs. filter_rows df params = Inr rs \<and>
            data_of c = to_dict df (clean_df (iloc rs skip (skip + limit)))))
   \<and> (\<forall>c. search lib (Some df) q skip limit = Inr c \<longrightarrow>
      (\<exists>rs. search_rows lib df q = Inr rs \<and>
            data_of c = to_dict df (clean_df (iloc rs skip (skip + limit)))))
   \<and> (\<forall>c rec kv. (get_records (Some df) params skip limit = Inr c \<or> search lib (Some df) q skip limit = Inr c)
        \<and> rec \<in> set (data_of c) \<and> kv \<in> set rec \<longrightarrow>
        snd kv \<noteq> CFloat NaN \<and> snd kv \<noteq> CFloat PInf \<and> snd kv \<noteq> CFloat NInf)
   \<and> clean_df page = map (map clean_cell) page
   \<and> clean_cell (CFloat NaN) = CNone \<and> clean_cell (CFloat PInf) = CNone \<and> clean_cell (CFloat NInf) = CNone
   \<and> clean_cell (CInt n) = CInt n \<and> clean_cell (CStr s) = CStr s \<and> clean_cell (CBool b) = CBool b
   \<and> clean_cell (CFloat (Fin x)) = CFloat (Fin x)"
proof -
  have cc: "clean_cell v \<noteq> CFloat NaN \<and> clean_cell v \<noteq> CFloat PInf \<and> clean_cell v \<noteq> CFloat NInf" for v
    by (induction v rule: clean_cell.induct) simp_all
  have clean: "snd kv \<noteq> CFloat NaN \<and> snd kv \<noteq> CFloat PInf \<and> snd kv \<noteq> CFloat NInf"
    if "rec \<in> set (to_dict df (clean_df rs))" "kv \<in> set rec" for rec kv rs
  proof -
    from that(1) obtain r where "rec = zip (map fst (cols df)) (map clean_cell r)"
      by (auto simp: to_dict_def clean_df_def)
    with that(2) have "(fst kv, snd kv) \<in> set (zip (map fst (cols df)) (map clean_cell r))"
      by simp
    then have "snd kv \<in> set (map clean_cell r)" by (rule set_zip_rightD)
    then obtain v where "snd kv = clean_cell v" by auto
    with cc show ?thesis by simp
  qed
  have g: "\<exists>rs. filter_rows df params = Inr rs \<and>
            data_of c = to_dict df (clean_df (iloc rs skip (skip + limit)))"
    if "get_records (Some df) params skip limit = Inr c" for c
    using that by (auto simp: get_records_eq filter_rows_eq data_of_page_content)
  have s: "\<exists>rs. search_rows lib df q = Inr rs \<and>
            data_of c = to_dict df (clean_df (iloc rs skip (skip + limit)))"
    if "search lib (Some df) q skip limit = Inr c" for c
  proof (cases "select_dtypes df = []")
    case True
    with that have "c = [(''total'', JInt 0), (''data'', JRows [])]" by (simp add: search_eq)
    moreover have "search_rows lib df q = Inr []" using True by (simp add: search_rows_def)
    ultimately show ?thesis by (simp add: data_of_def iloc_Nil clean_df_def to_dict_def)
  next
    case False
    with that show ?thesis
      by (auto simp: search_eq data_of_page_content split: sum.splits)
  qed
  have none: "snd kv \<noteq> CFloat NaN \<and> snd kv \<noteq> CFloat PInf \<and> snd kv \<noteq> CFloat NInf"
    if "get_records (Some df) params skip limit = Inr c \<or> search lib (Some df) q skip limit = Inr c"
      "rec \<in> set (data_of c)" "kv \<in> set rec" for c rec kv
    using that g [of c] s [of c] clean [of rec _ kv] by metis
  have g': "\<forall>c. get_records (Some df) params skip limit = Inr c \<longrightarrow>
      (\<exists>rs. filter_rows df params = Inr rs \<and>
            data_of c = to_dict df (clean_df (iloc rs skip (skip + limit))))"
    using g by blast
  have s': "\<forall>c. search lib (Some df) q skip limit = Inr c \<longrightarrow>
      (\<exists>rs. search_rows lib df q = Inr rs \<and>
            data_of c = to_dict df (clean_df (iloc rs skip (skip + limit))))"
    using s by blast
  have n': "\<forall>c rec kv. (get_records (Some df) params skip limit = Inr c \<or> search lib (Some df) q skip limit = Inr c)
        \<and> rec \<in> set (data_of c) \<and> kv \<in> set rec \<longrightarrow>
        snd kv \<noteq> CFloat NaN \<and> snd kv \<noteq> CFloat PInf \<and> snd kv \<noteq> CFloat NInf"
    using none by blast
  show ?thesis
    by (intro conjI g' s' n') (simp_all add: clean_df_def)
qed

theorem page_is_cleaned_witness:
  "get_records (Some scores) [] 1 5 =
     Inr [(''total'', JInt 3), (''skip'', JInt 1), (''limit'', JInt 5),
          (''data'', JRows [[(''name'', CStr ''Bob''), (''score'', CNone)],
                           [(''name'', CStr ''Carol''), (''score'', CNone)]])]
   \<and> search example_lib (Some scores) ''a'' 0 5 =
     Inr [(''total'', JInt 2), (''skip'', JInt 0), (''limit'', JInt 5),
          (''data'', JRows [[(''name'', CStr ''Alice''), (''score'', CFloat (Fin (3 / 2)))],
                           [(''name'', CStr ''Carol''), (''score'', CNone)]])]
   \<and> (\<exists>rs. filter_rows scores [] = Inr rs \<and>
         to_dict scores (clean_df (iloc rs 1 (1 + 5))) =
           [[(''name'', CStr ''Bob''), (''score'', CNone)], [(''name'', CStr ''Carol''), (''score'', CNone)]])"
proof -
  let ?c = "[(''total'', JInt 3), (''skip'', JInt 1), (''limit'', JInt 5),
          (''data'', JRows [[(''name'', CStr ''Bob''), (''score'', CNone)],
                           [(''name'', CStr ''Carol''), (''score'', CNone)]])]"
  have g: "get_records (Some scores) [] 1 5 = Inr ?c" by code_simp
  have s: "search example_lib (Some scores) ''a'' 0 5 =
     Inr [(''total'', JInt 2), (''skip'', JInt 0), (''limit'', JInt 5),
          (''data'', JRows [[(''name'', CStr ''Alice''), (''score'', CFloat (Fin (3 / 2)))],
                           [(''name'', CStr ''Carol''), (''score'', CNone)]])]"
    by code_simp
  have d: "data_of ?c = [[(''name'', CStr ''Bob''), (''score'', CNone)], [(''name'', CStr ''Carol''), (''score'', CNone)]]"
    by (simp add: data_of_def)
  from page_is_cleaned [of scores "[]" 1 5 example_lib "''a''"] g
  obtain rs where r1: "filter_rows scores [] = Inr rs"
    and r2: "data_of ?c = to_dict scores (clean_df (iloc rs 1 (1 + 5)))"
    by blast
  from r2 d have r3: "to_dict scores (clean_df (iloc rs 1 (1 + 5))) =
      [[(''name'', CStr ''Bob''), (''score'', CNone)], [(''name'', CStr ''Carol''), (''score'', CNone)]]"
    by simp
  from g s r1 r3 show ?thesis by blast
qed

text \<open>
  C10. The keys \<open>skip\<close> and \<open>limit\<close> are popped from the dict before the filter loop, so
  they never filter: a request selects the rows it would select without its \<open>skip\<close> and
  \<open>limit\<close> parameters, and \<open>/records?skip=v\<close> and \<open>/records?limit=v\<close> select every row of
  the table, for every text \<open>v\<close> and also where the table has columns of these names.
\<close>

theorem skip_and_limit_never_filter:
  "filter_rows df params =
     filter_rows df (filter (\<lambda>kv. fst kv \<noteq> ''skip'' \<and> fst kv \<noteq> ''limit'') params)
   \<and> get_records st params skip limit =
     get_records st (filter (\<lambda>kv. fst kv \<noteq> ''skip'' \<and> fst kv \<noteq> ''limit'') params) skip limit
   \<and> filter_rows df [(''skip'', v)] = Inr (rows df)
   \<and> filter_rows df [(''limit'', v)] = Inr (rows df)
   \<and> filter_rows df [(''skip'', v), (''limit'', w)] = Inr (rows df)
   \<and> get_records (Some df) [(''skip'', v)] skip limit = Inr (page_content df (rows df) skip limit)
   \<and> get_records (Some df) [(''limit'', v)] skip limit = Inr (page_content df (rows df) skip limit)"
proof -
  let ?keep = "filter (\<lambda>kv. fst kv \<noteq> ''skip'' \<and> fst kv \<noteq> ''limit'')"
  have f: "filter (\<lambda>kv. fst kv \<noteq> ''limit'') (filter (\<lambda>kv. fst kv \<noteq> ''skip'') ps) = ?keep ps"
    for ps :: "(string \<times> string) list"
    by (induction ps) auto
  have p: "pop ''limit'' (pop ''skip'' (dict_of ps)) = dict_of (?keep ps)" for ps
    by (simp add: pop_dict_of f)
  have "?keep (?keep ps) = ?keep ps" for ps :: "(string \<times> string) list" by simp
  then have q: "pop ''limit'' (pop ''skip'' (dict_of (?keep ps))) = pop ''limit'' (pop ''skip'' (dict_of ps))" for ps
    by (simp add: p)
  have a: "filter_rows df params = filter_rows df (?keep params)" for df
    by (simp add: filter_rows_def q)
  have b: "get_records st params skip limit = get_records st (?keep params) skip limit"
    by (cases st) (simp_all add: get_records_def a [symmetric])
  have c: "filter_rows df [(''skip'', v)] = Inr (rows df)"
    "filter_rows df [(''limit'', v)] = Inr (rows df)"
    "filter_rows df [(''skip'', v), (''limit'', w)] = Inr (rows df)"
    by (simp_all add: filter_rows_def dict_of_def pop_def)
  from c have d: "get_records (Some df) [(''skip'', v)] skip limit = Inr (page_content df (rows df) skip limit)"
    "get_records (Some df) [(''limit'', v)] skip limit = Inr (page_content df (rows df) skip limit)"
    by (simp_all add: get_records_def)
  from a b c d show ?thesis by simp
qed

theorem skip_and_limit_never_filter_witness:
  "get_records (Some offsets) [(''skip'', ''1''), (''limit'', ''b'')] 1 100 =
     Inr [(''total'', JInt 3), (''skip'', JInt 1), (''limit'', JInt 100),
          (''data'', JRows [[(''skip'', CInt 2), (''limit'', CStr ''b'')],
                           [(''skip'', CInt 3), (''limit'', CStr ''c'')]])]
   \<and> filter_rows offsets [(''skip'', ''1'')] = Inr (rows offsets)
   \<and> filter_rows offsets [(''limit'', ''b'')] = Inr (rows offsets)
   \<and> get_records (Some offsets) [(''skip'', ''1''), (''limit'', ''b'')] 1 100 =
       get_records (Some offsets) [] 1 100"
proof -
  have g: "get_records (Some offsets) [(''skip'', ''1''), (''limit'', ''b'')] 1 100 =
     Inr [(''total'', JInt 3), (''skip'', JInt 1), (''limit'', JInt 100),
          (''data'', JRows [[(''skip'', CInt 2), (''limit'', CStr ''b'')],
                           [(''skip'', CInt 3), (''limit'', CStr ''c'')]])]"
    by code_simp
  note a = skip_and_limit_never_filter
    [of offsets "[(''skip'', ''1''), (''limit'', ''b'')]" "Some offsets" 1 100 "''1''" "''b''"]
  note b = skip_and_limit_never_filter
    [of offsets "[(''skip'', ''1''), (''limit'', ''b'')]" "Some offsets" 1 100 "''b''" "''b''"]
  from a have a1: "filter_rows offsets [(''skip'', ''1'')] = Inr (rows offsets)" by blast
  from b have b1: "filter_rows offsets [(''limit'', ''b'')] = Inr (rows offsets)" by blast
  from a have a2: "get_records (Some offsets) [(''skip'', ''1''), (''limit'', ''b'')] 1 100 =
       get_records (Some offsets) [] 1 100"
    by simp
  from g a1 b1 a2 show ?thesis by blast
qed

end
